theory Spec2Isabelle
  imports Complex_Main
begin

section \<open>Python values and the exceptions of the \<open>math\<close> module\<close>

text \<open>
  The program is \<^verbatim>\<open>BlackScholes/black_scholes.py\<close>. Its numbers are Python floats.
  They are modelled as mathematical reals: rounding, overflow and the infinities of
  binary64 are idealised away, so \<^verbatim>\<open>OverflowError\<close> (from \<^verbatim>\<open>math.exp\<close> or
  \<^verbatim>\<open>**\<close>) is not a branch of the model. The two exceptions that the arithmetic of
  \<^verbatim>\<open>black_scholes\<close> raises on finite operands are branches of the model.
\<close>

datatype py_error = ZeroDivisionError | ValueError

text \<open>\<^verbatim>\<open>a / b\<close> on Python floats: \<^verbatim>\<open>ZeroDivisionError\<close> when \<^verbatim>\<open>b == 0\<close>.\<close>

definition py_truediv :: "real \<Rightarrow> real \<Rightarrow> py_error + real" where
  "py_truediv a b = (if b = 0 then Inl ZeroDivisionError else Inr (a / b))"

text \<open>\<^verbatim>\<open>math.log(x)\<close>: \<^verbatim>\<open>ValueError\<close> (math domain error) when \<^verbatim>\<open>x <= 0\<close>.\<close>

definition math_log :: "real \<Rightarrow> py_error + real" where
  "math_log x = (if x \<le> 0 then Inl ValueError else Inr (ln x))"

text \<open>\<^verbatim>\<open>math.sqrt(x)\<close>: \<^verbatim>\<open>ValueError\<close> (math domain error) when \<^verbatim>\<open>x < 0\<close>.\<close>

definition math_sqrt :: "real \<Rightarrow> py_error + real" where
  "math_sqrt x = (if x < 0 then Inl ValueError else Inr (sqrt x))"

text \<open>Sequencing of two computations that may raise: the first exception wins.\<close>

definition bind_err :: "py_error + 'a \<Rightarrow> ('a \<Rightarrow> py_error + 'b) \<Rightarrow> py_error + 'b" where
  "bind_err m f = (case m of Inl e \<Rightarrow> Inl e | Inr v \<Rightarrow> f v)"

text \<open>
  Modelled from the spec: \<^verbatim>\<open>scipy.stats.norm.cdf\<close> is a library function, not part
  of the repository. The spec calls it the standard normal cumulative distribution
  function. It is given here by its Maclaurin series
  \<open>1/2 + (1 / sqrt (2 pi)) * (\<Sum>n. (-1)^n x^(2n+1) / (n! 2^n (2n+1)))\<close>,
  which converges for every real \<open>x\<close>.
\<close>

definition cdf_term :: "real \<Rightarrow> nat \<Rightarrow> real" where
  "cdf_term x n = x ^ (2 * n + 1) / (fact n * 2 ^ n * real (2 * n + 1))"

definition norm_cdf :: "real \<Rightarrow> real" where
  "norm_cdf x = 1 / 2 + (\<Sum>n. (- 1) ^ n * cdf_term x n) / sqrt (2 * pi)"

section \<open>The pricer\<close>

text \<open>
  \<^verbatim>\<open>
  def black_scholes(S, K, T, r, vol):
      d1 = (math.log(S / K) + (r + 0.5 * vol ** 2) * T) / (vol * math.sqrt(T))
      d2 = d1 - (vol * math.sqrt(T))
      c = S * norm.cdf(d1) - (K * math.exp(-r * T) * norm.cdf(d2))
      p = (K * math.exp(-r * T) * norm.cdf(-d2) - S )* norm.cdf(-d1)
      return c, p
  \<close>
  Python evaluates the numerator of \<open>d1\<close> before its denominator and divides last, so
  the exceptions are tried in this order: \<^verbatim>\<open>S / K\<close>, \<^verbatim>\<open>math.log\<close>,
  \<^verbatim>\<open>math.sqrt\<close>, the division by \<^verbatim>\<open>vol * math.sqrt(T)\<close>.
\<close>

definition black_scholes :: "real \<Rightarrow> real \<Rightarrow> real \<Rightarrow> real \<Rightarrow> real \<Rightarrow> py_error + real \<times> real" where
  "black_scholes S K T r vol =
     bind_err (py_truediv S K) (\<lambda>q.
     bind_err (math_log q) (\<lambda>l.
     bind_err (math_sqrt T) (\<lambda>s.
     bind_err (py_truediv (l + (r + 0.5 * vol ^ 2) * T) (vol * s)) (\<lambda>d1.
     bind_err (math_sqrt T) (\<lambda>s'.
       let d2 = d1 - (vol * s');
           c = S * norm_cdf d1 - (K * exp (- r * T) * norm_cdf d2);
           p = (K * exp (- r * T) * norm_cdf (- d2) - S) * norm_cdf (- d1)
       in Inr (c, p))))))"

subsection \<open>The closed form as the spec writes it\<close>

definition spec_d1 :: "real \<Rightarrow> real \<Rightarrow> real \<Rightarrow> real \<Rightarrow> real \<Rightarrow> real" where
  "spec_d1 S K T r vol = (ln (S / K) + (r + 0.5 * vol ^ 2) * T) / (vol * sqrt T)"

definition spec_d2 :: "real \<Rightarrow> real \<Rightarrow> real \<Rightarrow> real \<Rightarrow> real \<Rightarrow> real" where
  "spec_d2 S K T r vol = spec_d1 S K T r vol - vol * sqrt T"

definition spec_call :: "real \<Rightarrow> real \<Rightarrow> real \<Rightarrow> real \<Rightarrow> real \<Rightarrow> real" where
  "spec_call S K T r vol =
     S * norm_cdf (spec_d1 S K T r vol) - K * exp (- r * T) * norm_cdf (spec_d2 S K T r vol)"

definition spec_put :: "real \<Rightarrow> real \<Rightarrow> real \<Rightarrow> real \<Rightarrow> real \<Rightarrow> real" where
  "spec_put S K T r vol =
     K * exp (- r * T) * norm_cdf (- spec_d2 S K T r vol) - S * norm_cdf (- spec_d1 S K T r vol)"

text \<open>What line 21 of the source computes: the closing parenthesis comes after \<open>S\<close>.\<close>

definition code_put :: "real \<Rightarrow> real \<Rightarrow> real \<Rightarrow> real \<Rightarrow> real \<Rightarrow> real" where
  "code_put S K T r vol =
     (K * exp (- r * T) * norm_cdf (- spec_d2 S K T r vol) - S) * norm_cdf (- spec_d1 S K T r vol)"

section \<open>Market data and the clock\<close>

text \<open>
  A cell of the option-chain data frame holds a float that may be NaN. Arithmetic on
  it propagates NaN; comparisons with NaN are false.
\<close>

datatype fl = NaN | Num real

fun fl_add :: "fl \<Rightarrow> fl \<Rightarrow> fl" where
  "fl_add (Num a) (Num b) = Num (a + b)"
| "fl_add _ _ = NaN"

text \<open>Division of a cell by the non-zero literal \<^verbatim>\<open>2\<close>.\<close>

fun fl_half :: "fl \<Rightarrow> fl" where
  "fl_half (Num a) = Num (a / 2)"
| "fl_half NaN = NaN"

text \<open>
  A row of \<^verbatim>\<open>option.calls\<close>, with the four columns the program reads.
  \<^verbatim>\<open>impliedVolatility\<close> may also be \<^verbatim>\<open>None\<close>. The strike and the last
  price are taken to be finite numbers: the program tests neither for NaN.
\<close>

record chain_row =
  strike :: real
  impliedVolatility :: "fl option"
  bid :: fl
  ask :: fl

text \<open>
  What the two reporters fetch from the market-data provider:
  \<^verbatim>\<open>ticker.fast_info['last_price']\<close> and \<^verbatim>\<open>ticker.option_chain(expiry).calls\<close>.
\<close>

record market =
  last_price :: real
  calls :: "chain_row list"

text \<open>
  A naive \<^verbatim>\<open>datetime\<close>: the proleptic Gregorian ordinal of its date and the
  microseconds elapsed since midnight, below \<open>86400000000\<close>.
\<close>

record datetime =
  ordinal :: int
  usec :: nat

text \<open>
  \<^verbatim>\<open>datetime.strptime(expiry, "%Y-%m-%d")\<close>: midnight of the date the string
  denotes. The string is modelled by the ordinal of that date.
\<close>

definition strptime_ymd :: "int \<Rightarrow> datetime" where
  "strptime_ymd d = \<lparr>ordinal = d, usec = 0\<rparr>"

text \<open>
  \<^verbatim>\<open>(a - b).days\<close>: a \<^verbatim>\<open>timedelta\<close> is normalised so that its seconds and
  microseconds are not negative; its \<^verbatim>\<open>days\<close> field is the floor of the difference.
\<close>

definition timedelta_days :: "datetime \<Rightarrow> datetime \<Rightarrow> int" where
  "timedelta_days a b =
     ((ordinal a - ordinal b) * 86400000000 + (int (usec a) - int (usec b))) div 86400000000"

text \<open>
  \<^verbatim>\<open>t = ((datetime.strptime(expiry, "%Y-%m-%d")) - datetime.now()).days / 365\<close>
  (lines 33 and 86).
\<close>

definition time_to_expiry :: "int \<Rightarrow> datetime \<Rightarrow> real" where
  "time_to_expiry expiry now = real_of_int (timedelta_days (strptime_ymd expiry) now) / 365"

section \<open>The model-table reporter\<close>

text \<open>An entry of the list \<^verbatim>\<open>prices\<close> of \<^verbatim>\<open>black_scholes_table\<close>.\<close>

record price_row =
  p_strike :: real
  call_price :: real
  put_price :: real
  p_vol :: real

text \<open>
  The loop of lines 42 to 59. An exception of the pricer leaves the loop and the
  function.
  \<^verbatim>\<open>
  for idx, call in calls.iterrows():
      K = call['strike']
      vol = call['impliedVolatility']
      if vol is None or vol <= 0 or np.isnan(vol):
          continue
      call_px, put_px = black_scholes(S, K, t, r, vol)
      prices.append({"strike": K, "call price": float(call_px),
                     "put price": float(put_px), "vol": vol})
  \<close>
\<close>

fun table_loop :: "real \<Rightarrow> real \<Rightarrow> real \<Rightarrow> chain_row list \<Rightarrow> price_row list
                     \<Rightarrow> py_error + price_row list" where
  "table_loop S t r [] prices = Inr prices"
| "table_loop S t r (call # rest) prices =
     (case impliedVolatility call of
        None \<Rightarrow> table_loop S t r rest prices
      | Some NaN \<Rightarrow> table_loop S t r rest prices
      | Some (Num vol) \<Rightarrow>
          if vol \<le> 0 then table_loop S t r rest prices
          else (case black_scholes S (strike call) t r vol of
                  Inl e \<Rightarrow> Inl e
                | Inr (call_px, put_px) \<Rightarrow>
                    table_loop S t r rest
                      (prices @ [\<lparr>p_strike = strike call, call_price = call_px,
                                  put_price = put_px, p_vol = vol\<rparr>])))"

text \<open>
  \<^verbatim>\<open>black_scholes_table(tic, expiry, r)\<close>, given what it fetches and the clock. The
  second loop rounds each entry of \<^verbatim>\<open>prices\<close> for display, one table line per
  entry; the result modelled here is \<^verbatim>\<open>prices\<close>.
\<close>

definition black_scholes_table :: "market \<Rightarrow> int \<Rightarrow> datetime \<Rightarrow> real \<Rightarrow> py_error + price_row list" where
  "black_scholes_table mkt expiry now r =
     table_loop (last_price mkt) (time_to_expiry expiry now) r (calls mkt) []"

section \<open>The model-vs-market reporter\<close>

text \<open>An entry of the list \<^verbatim>\<open>prices\<close> of \<^verbatim>\<open>blkschl_vs_market\<close>.\<close>

record comparison_row =
  c_strike :: real
  model_price :: real
  market_price :: real
  difference :: real
  c_vol :: real

text \<open>
  The loop of lines 95 to 119. The pricer runs before the mid-price is computed.
  \<^verbatim>\<open>
  for idx, call in calls.iterrows():
      K = call['strike']
      vol = call['impliedVolatility']
      if vol is None or vol <= 0 or np.isnan(vol):
          continue
      model_call, _ = black_scholes(S, K, t, r, vol)
      mid = (call["bid"] + call["ask"]) / 2
      if np.isnan(mid):
          continue
      mkt_call = float(mid)
      prices.append({"strike": K, "model price": float(model_call),
                     "market price": float(mkt_call),
                     "difference": float(mkt_call - model_call), "vol": vol})
  \<close>
\<close>

fun vs_market_loop :: "real \<Rightarrow> real \<Rightarrow> real \<Rightarrow> chain_row list \<Rightarrow> comparison_row list
                         \<Rightarrow> py_error + comparison_row list" where
  "vs_market_loop S t r [] prices = Inr prices"
| "vs_market_loop S t r (call # rest) prices =
     (case impliedVolatility call of
        None \<Rightarrow> vs_market_loop S t r rest prices
      | Some NaN \<Rightarrow> vs_market_loop S t r rest prices
      | Some (Num vol) \<Rightarrow>
          if vol \<le> 0 then vs_market_loop S t r rest prices
          else (case black_scholes S (strike call) t r vol of
                  Inl e \<Rightarrow> Inl e
                | Inr (model_call, _) \<Rightarrow>
                    (case fl_half (fl_add (bid call) (ask call)) of
                       NaN \<Rightarrow> vs_market_loop S t r rest prices
                     | Num mkt_call \<Rightarrow>
                         vs_market_loop S t r rest
                           (prices @ [\<lparr>c_strike = strike call, model_price = model_call,
                                       market_price = mkt_call,
                                       difference = mkt_call - model_call, c_vol = vol\<rparr>]))))"

definition blkschl_vs_market :: "market \<Rightarrow> int \<Rightarrow> datetime \<Rightarrow> real \<Rightarrow> py_error + comparison_row list" where
  "blkschl_vs_market mkt expiry now r =
     vs_market_loop (last_price mkt) (time_to_expiry expiry now) r (calls mkt) []"

subsection \<open>The reporters as the spec describes them\<close>

text \<open>A row is valid when its implied volatility is present, not NaN and positive.\<close>

fun valid_vol :: "chain_row \<Rightarrow> bool" where
  "valid_vol row = (case impliedVolatility row of Some (Num v) \<Rightarrow> 0 < v | _ \<Rightarrow> False)"

text \<open>
  The pricer raises on a row: the row is valid, so both reporters call the pricer on it,
  and the call ends in an exception.
\<close>

definition pricer_raises :: "real \<Rightarrow> real \<Rightarrow> real \<Rightarrow> chain_row \<Rightarrow> bool" where
  "pricer_raises S t r row =
     (case impliedVolatility row of
        Some (Num v) \<Rightarrow> 0 < v \<and> isl (black_scholes S (strike row) t r v)
      | _ \<Rightarrow> False)"

text \<open>The entry a valid row gives in the model table, none for any other row.\<close>

definition spec_price_row :: "real \<Rightarrow> real \<Rightarrow> real \<Rightarrow> chain_row \<Rightarrow> price_row option" where
  "spec_price_row S t r row =
     (case impliedVolatility row of
        Some (Num v) \<Rightarrow>
          if 0 < v
          then Some \<lparr>p_strike = strike row, call_price = spec_call S (strike row) t r v,
                     put_price = code_put S (strike row) t r v, p_vol = v\<rparr>
          else None
      | _ \<Rightarrow> None)"

text \<open>The market mid-price of a row: \<open>(bid + ask) / 2\<close>, NaN when either is.\<close>

definition mid_price :: "chain_row \<Rightarrow> fl" where
  "mid_price row = fl_half (fl_add (bid row) (ask row))"

text \<open>
  The entry a valid row with a mid-price that is not NaN gives in the comparison table,
  none for any other row.
\<close>

definition spec_comparison_row :: "real \<Rightarrow> real \<Rightarrow> real \<Rightarrow> chain_row \<Rightarrow> comparison_row option" where
  "spec_comparison_row S t r row =
     (case impliedVolatility row of
        Some (Num v) \<Rightarrow>
          if 0 < v
          then (case mid_price row of
                  NaN \<Rightarrow> None
                | Num m \<Rightarrow>
                    Some \<lparr>c_strike = strike row, model_price = spec_call S (strike row) t r v,
                          market_price = m, difference = m - spec_call S (strike row) t r v,
                          c_vol = v\<rparr>)
          else None
      | _ \<Rightarrow> None)"

text \<open>
  The time between the current instant and midnight of the expiry date, in days, as a
  real number.
\<close>

definition elapsed_days :: "int \<Rightarrow> datetime \<Rightarrow> real" where
  "elapsed_days expiry now = real_of_int (expiry - ordinal now) - real (usec now) / 86400000000"

text \<open>
  The elapsed time cut to whole days, partial days dropped (rounding toward zero).
\<close>

definition whole_days_truncated :: "int \<Rightarrow> datetime \<Rightarrow> int" where
  "whole_days_truncated expiry now =
     (if 0 \<le> elapsed_days expiry now then \<lfloor>elapsed_days expiry now\<rfloor>
      else \<lceil>elapsed_days expiry now\<rceil>)"

section \<open>The series of the distribution function\<close>

lemma cdf_term_uminus: "cdf_term (- x) n = - cdf_term x n"
  by (simp add: cdf_term_def)

lemma cdf_term_alt: "cdf_term x n = x * ((x\<^sup>2 / 2) ^ n / fact n) / real (2 * n + 1)"
  by (simp add: cdf_term_def power_mult power_divide)

lemma cdf_term_abs_le: "\<bar>cdf_term x n\<bar> \<le> \<bar>x\<bar> * (inverse (fact n) * (x\<^sup>2 / 2) ^ n)"
proof -
  let ?y = "(x\<^sup>2 / 2) ^ n / fact n"
  have y: "0 \<le> ?y" by simp
  have "\<bar>cdf_term x n\<bar> = \<bar>x\<bar> * ?y / real (2 * n + 1)"
    unfolding cdf_term_alt abs_divide abs_mult using y by simp
  also have "\<dots> \<le> \<bar>x\<bar> * ?y / 1"
    by (rule divide_left_mono) (use y in simp_all)
  finally show ?thesis
    by (simp add: inverse_eq_divide)
qed

lemma summable_abs_cdf_term: "summable (\<lambda>n. \<bar>cdf_term x n\<bar>)"
proof (rule summable_rabs_comparison_test)
  show "\<exists>N. \<forall>n\<ge>N. \<bar>cdf_term x n\<bar> \<le> \<bar>x\<bar> * (inverse (fact n) * (x\<^sup>2 / 2) ^ n)"
    using cdf_term_abs_le by blast
  show "summable (\<lambda>n. \<bar>x\<bar> * (inverse (fact n) * (x\<^sup>2 / 2) ^ n))"
    by (rule summable_mult) (rule summable_exp)
qed

lemma summable_alt_cdf_term: "summable (\<lambda>n. (- 1) ^ n * cdf_term x n)"
proof (rule summable_rabs_cancel)
  show "summable (\<lambda>n. \<bar>(- 1) ^ n * cdf_term x n\<bar>)"
    using summable_abs_cdf_term [of x] by (simp add: abs_mult power_abs)
qed

lemma norm_cdf_uminus: "norm_cdf (- x) = 1 - norm_cdf x"
proof -
  have "(\<Sum>n. (- 1) ^ n * cdf_term (- x) n) = (\<Sum>n. - ((- 1) ^ n * cdf_term x n))"
    by (simp add: cdf_term_uminus)
  also have "\<dots> = - (\<Sum>n. (- 1) ^ n * cdf_term x n)"
    by (rule suminf_minus) (rule summable_alt_cdf_term)
  finally show ?thesis
    by (simp add: norm_cdf_def)
qed

lemma cdf_term_nonneg: "0 \<le> x \<Longrightarrow> 0 \<le> cdf_term x n"
  by (simp add: cdf_term_def)

lemma cdf_term_decreasing:
  assumes "0 \<le> x" "x \<le> 1"
  shows "cdf_term x (Suc n) \<le> cdf_term x n"
proof -
  define y where "y = x\<^sup>2 / 2"
  have y: "0 \<le> y" "y \<le> 1"
    using assms power_le_one [of x 2] by (simp_all add: y_def)
  define w where "w = y ^ n / fact n"
  have w: "0 \<le> w"
    using y by (simp add: w_def)
  have step: "y ^ Suc n / fact (Suc n) = w * (y / real (Suc n))"
    by (simp add: w_def mult_ac)
  have "y / real (Suc n) \<le> 1"
    using y by simp
  then have "y / real (Suc n) / real (2 * Suc n + 1) \<le> 1 / real (2 * n + 1)"
    by (rule frac_le [rotated]) (use y in simp_all)
  then have "w * (y / real (Suc n) / real (2 * Suc n + 1)) \<le> w * (1 / real (2 * n + 1))"
    using w by (rule mult_left_mono)
  then have "x * (w * (y / real (Suc n) / real (2 * Suc n + 1))) \<le> x * (w * (1 / real (2 * n + 1)))"
    using assms(1) by (rule mult_left_mono)
  moreover have "cdf_term x (Suc n) = x * (w * (y / real (Suc n) / real (2 * Suc n + 1)))"
    unfolding cdf_term_alt y_def [symmetric] step by simp
  moreover have "cdf_term x n = x * (w * (1 / real (2 * n + 1)))"
    unfolding cdf_term_alt y_def [symmetric] w_def by simp
  ultimately show ?thesis by simp
qed

lemma cdf_term_tendsto_0: "cdf_term x \<longlonglongrightarrow> 0"
  by (rule summable_LIMSEQ_zero) (rule summable_rabs_cancel, rule summable_abs_cdf_term)

lemma cdf_series_bounds:
  assumes "0 \<le> x" "x \<le> 1"
  shows "0 \<le> (\<Sum>n. (- 1) ^ n * cdf_term x n)" and "(\<Sum>n. (- 1) ^ n * cdf_term x n) \<le> x"
proof -
  note L = summable_Leibniz' [OF cdf_term_tendsto_0 cdf_term_nonneg [OF assms(1)]
                              cdf_term_decreasing [OF assms]]
  show "0 \<le> (\<Sum>n. (- 1) ^ n * cdf_term x n)"
    using L(2) [of 0] by simp
  show "(\<Sum>n. (- 1) ^ n * cdf_term x n) \<le> x"
    using L(4) [of 0] by (simp add: cdf_term_def)
qed

lemma inv_sqrt_2pi_bounds: "0 < 1 / sqrt (2 * pi)" "1 / sqrt (2 * pi) \<le> 1 / 2"
proof -
  show "0 < 1 / sqrt (2 * pi)" by simp
  have "2\<^sup>2 \<le> 2 * pi"
    using pi_ge_two by simp
  then have "2 \<le> sqrt (2 * pi)"
    by (rule real_le_rsqrt)
  then show "1 / sqrt (2 * pi) \<le> 1 / 2"
    by (simp add: field_simps)
qed

lemma norm_cdf_bounds:
  assumes "0 \<le> x" "x \<le> 1"
  shows "1 / 2 \<le> norm_cdf x" and "norm_cdf x \<le> 1 / 2 + x / 2"
proof -
  let ?s = "\<Sum>n. (- 1) ^ n * cdf_term x n"
  let ?c = "1 / sqrt (2 * pi)"
  have s: "0 \<le> ?s" "?s \<le> x"
    using cdf_series_bounds [OF assms] by simp_all
  have eq: "norm_cdf x = 1 / 2 + ?c * ?s"
    by (simp add: norm_cdf_def)
  have "0 \<le> ?c * ?s"
    using s(1) inv_sqrt_2pi_bounds(1) by simp
  then show "1 / 2 \<le> norm_cdf x"
    unfolding eq by linarith
  have "?c * ?s \<le> (1 / 2) * x"
    by (rule mult_mono) (use s inv_sqrt_2pi_bounds in simp_all)
  then show "norm_cdf x \<le> 1 / 2 + x / 2"
    unfolding eq by linarith
qed

section \<open>The pricer on valid inputs\<close>

lemma black_scholes_valid:
  assumes "0 < S" "0 < K" "0 < T" "0 < vol"
  shows "black_scholes S K T r vol = Inr (spec_call S K T r vol, code_put S K T r vol)"
proof -
  have q: "py_truediv S K = Inr (S / K)"
    using assms by (simp add: py_truediv_def)
  have l: "math_log (S / K) = Inr (ln (S / K))"
    using assms by (simp add: math_log_def not_le)
  have s: "math_sqrt T = Inr (sqrt T)"
    using assms by (simp add: math_sqrt_def)
  have nz: "vol * sqrt T \<noteq> 0"
    using assms by simp
  have d: "py_truediv x (vol * sqrt T) = Inr (x / (vol * sqrt T))" for x
    using nz by (simp add: py_truediv_def)
  show ?thesis
    by (simp add: black_scholes_def bind_err_def q l s d Let_def
                  spec_call_def code_put_def spec_d2_def spec_d1_def)
qed

section \<open>The pricer at the reference inputs\<close>

lemma norm_cdf_neg_bounds:
  assumes "0 \<le> x" "x \<le> 1"
  shows "1 / 2 - x / 2 \<le> norm_cdf (- x)" and "norm_cdf (- x) \<le> 1 / 2"
  using norm_cdf_bounds [OF assms] by (simp_all add: norm_cdf_uminus)

lemma std_d1: "spec_d1 100 100 1 (1 / 20) (1 / 5) = 7 / 20"
  by (simp add: spec_d1_def power2_eq_square)

lemma std_d2: "spec_d2 100 100 1 (1 / 20) (1 / 5) = 3 / 20"
  by (simp add: spec_d2_def std_d1)

lemma atm_d1: "spec_d1 100 100 1 0 (1 / 5) = 1 / 10"
  by (simp add: spec_d1_def power2_eq_square)

lemma atm_d2: "spec_d2 100 100 1 0 (1 / 5) = - (1 / 10)"
  by (simp add: spec_d2_def atm_d1)

lemma exp_std_bounds: "19 / 20 \<le> exp (- (1 / 20) :: real)" "exp (- (1 / 20) :: real) \<le> 1"
  using exp_ge_add_one_self [of "- (1 / 20) :: real"] by simp_all

lemma std_code_put_neg: "code_put 100 100 1 (1 / 20) (1 / 5) \<le> - 16"
proof -
  let ?e = "exp (- (1 / 20) :: real)"
  let ?a = "norm_cdf (- (3 / 20))"
  let ?b = "norm_cdf (- (7 / 20))"
  have a: "0 \<le> ?a" "?a \<le> 1 / 2"
    using norm_cdf_neg_bounds [of "3 / 20"] by simp_all
  have b: "13 / 40 \<le> ?b"
    using norm_cdf_neg_bounds [of "7 / 20"] by simp
  have "?e * ?a \<le> 1 * (1 / 2)"
    by (rule mult_mono) (use a exp_std_bounds in simp_all)
  then have f: "100 * ?e * ?a - 100 \<le> - 50" by simp
  have "(100 * ?e * ?a - 100) * ?b \<le> (- 50) * ?b"
    by (rule mult_right_mono) (use f b in simp_all)
  also have "\<dots> \<le> - 16" using b by simp
  finally show ?thesis
    by (simp add: code_put_def std_d1 std_d2)
qed

lemma std_put_gap:
  "spec_put 100 100 1 (1 / 20) (1 / 5) - code_put 100 100 1 (1 / 20) (1 / 5) \<ge> 20"
proof -
  let ?e = "exp (- (1 / 20) :: real)"
  let ?a = "norm_cdf (- (3 / 20))"
  let ?b = "norm_cdf (- (7 / 20))"
  have a: "17 / 40 \<le> ?a"
    using norm_cdf_neg_bounds [of "3 / 20"] by simp
  have b: "?b \<le> 1 / 2"
    using norm_cdf_neg_bounds [of "7 / 20"] by simp
  have "(19 / 20) * (17 / 40) \<le> ?e * ?a"
    by (rule mult_mono) (use a exp_std_bounds in simp_all)
  then have ea: "323 / 800 \<le> ?e * ?a" by simp
  have "(323 / 800) * (1 / 2) \<le> (?e * ?a) * (1 - ?b)"
    by (rule mult_mono) (use ea b in simp_all)
  then have "20 \<le> 100 * (?e * ?a) * (1 - ?b)" by simp
  also have "100 * (?e * ?a) * (1 - ?b)
               = spec_put 100 100 1 (1 / 20) (1 / 5) - code_put 100 100 1 (1 / 20) (1 / 5)"
    by (simp add: spec_put_def code_put_def std_d1 std_d2 algebra_simps)
  finally show ?thesis by simp
qed

lemma spec_parity:
  "spec_call S K T r vol - spec_put S K T r vol = S - K * exp (- r * T)"
  by (simp add: spec_call_def spec_put_def norm_cdf_uminus algebra_simps)

lemma atm_call_nonneg: "0 \<le> spec_call 100 100 1 0 (1 / 5)"
proof -
  have "1 / 2 \<le> norm_cdf (1 / 10)"
    using norm_cdf_bounds [of "1 / 10"] by simp
  moreover have "norm_cdf (- (1 / 10)) \<le> 1 / 2"
    using norm_cdf_neg_bounds [of "1 / 10"] by simp
  ultimately show ?thesis
    by (simp add: spec_call_def atm_d1 atm_d2)
qed

lemma atm_code_put_neg: "code_put 100 100 1 0 (1 / 5) \<le> - 20"
proof -
  let ?a = "norm_cdf (1 / 10)"
  let ?b = "norm_cdf (- (1 / 10))"
  have a: "?a \<le> 11 / 20"
    using norm_cdf_bounds [of "1 / 10"] by simp
  have b: "9 / 20 \<le> ?b"
    using norm_cdf_neg_bounds [of "1 / 10"] by simp
  have f: "100 * ?a - 100 \<le> - 45" using a by simp
  have "(100 * ?a - 100) * ?b \<le> (- 45) * ?b"
    by (rule mult_right_mono) (use f b in simp_all)
  also have "\<dots> \<le> - 20" using b by simp
  finally show ?thesis
    by (simp add: code_put_def atm_d1 atm_d2)
qed

lemma std_valid:
  "black_scholes 100 100 1 (1 / 20) (1 / 5) =
     Inr (spec_call 100 100 1 (1 / 20) (1 / 5), code_put 100 100 1 (1 / 20) (1 / 5))"
  by (rule black_scholes_valid) simp_all

lemma atm_valid:
  "black_scholes 100 100 1 0 (1 / 5) =
     Inr (spec_call 100 100 1 0 (1 / 5), code_put 100 100 1 0 (1 / 5))"
  by (rule black_scholes_valid) simp_all

lemma black_scholes_zero_time:
  assumes "0 < S" "0 < K"
  shows "black_scholes S K 0 r vol = Inl ZeroDivisionError"
  using assms
  by (simp add: black_scholes_def bind_err_def py_truediv_def math_log_def math_sqrt_def not_le)

lemma black_scholes_negative_time:
  assumes "0 < S" "0 < K" "T < 0"
  shows "black_scholes S K T r vol = Inl ValueError"
  using assms
  by (simp add: black_scholes_def bind_err_def py_truediv_def math_log_def math_sqrt_def not_le)

section \<open>The reporters and the exceptions of the pricer\<close>

lemma black_scholes_Inr_value:
  assumes "black_scholes S K T r vol = Inr x"
  shows "x = (spec_call S K T r vol, code_put S K T r vol)"
  using assms
  by (auto simp: black_scholes_def bind_err_def py_truediv_def math_log_def math_sqrt_def
                 Let_def spec_call_def code_put_def spec_d2_def spec_d1_def
           split: if_splits)

lemma pricer_returns_value:
  assumes "\<not> pricer_raises S t r row" "impliedVolatility row = Some (Num v)" "0 < v"
  shows "black_scholes S (strike row) t r v =
           Inr (spec_call S (strike row) t r v, code_put S (strike row) t r v)"
proof (cases "black_scholes S (strike row) t r v")
  case (Inl e)
  with assms show ?thesis
    by (simp add: pricer_raises_def)
next
  case (Inr x)
  with black_scholes_Inr_value [OF Inr] show ?thesis
    by simp
qed

lemma valid_inputs_never_raise:
  assumes "0 < S" "0 < t" "valid_vol row \<longrightarrow> 0 < strike row"
  shows "\<not> pricer_raises S t r row"
proof
  assume raises: "pricer_raises S t r row"
  then obtain v where v: "impliedVolatility row = Some (Num v)" "0 < v"
    and err: "isl (black_scholes S (strike row) t r v)"
    by (auto simp: pricer_raises_def split: option.splits fl.splits)
  from v have "valid_vol row" by simp
  with assms(3) have "0 < strike row" by simp
  with assms(1,2) v(2) have "black_scholes S (strike row) t r v =
      Inr (spec_call S (strike row) t r v, code_put S (strike row) t r v)"
    by (intro black_scholes_valid)
  with err show False by simp
qed

lemma find_first_exists:
  assumes "\<exists>x\<in>set xs. P x"
  shows "\<exists>x. find P xs = Some x"
  using assms by (cases "find P xs") (auto simp: find_None_iff)

lemma table_loop_refines:
  assumes "\<forall>row\<in>set cs. \<not> pricer_raises S t r row"
  shows "table_loop S t r cs prices = Inr (prices @ List.map_filter (spec_price_row S t r) cs)"
  using assms
proof (induction cs arbitrary: prices)
  case Nil
  show ?case by simp
next
  case (Cons call rest)
  have rest: "\<forall>row\<in>set rest. \<not> pricer_raises S t r row"
    using Cons.prems by simp
  have here: "\<not> pricer_raises S t r call"
    using Cons.prems by simp
  note IH = Cons.IH [OF rest]
  show ?case
  proof (cases "impliedVolatility call")
    case None
    then show ?thesis
      by (simp add: IH spec_price_row_def)
  next
    case (Some f)
    show ?thesis
    proof (cases f)
      case NaN
      with Some show ?thesis
        by (simp add: IH spec_price_row_def)
    next
      case (Num vol)
      show ?thesis
      proof (cases "vol \<le> 0")
        case True
        with Some Num show ?thesis
          by (simp add: IH spec_price_row_def)
      next
        case False
        then have vol: "0 < vol" by simp
        have iv: "impliedVolatility call = Some (Num vol)"
          using Some Num by simp
        note bs = pricer_returns_value [OF here iv vol]
        show ?thesis
          using iv vol by (simp add: bs IH spec_price_row_def)
      qed
    qed
  qed
qed

lemma table_loop_first_raise:
  assumes "find (pricer_raises S t r) cs = Some row"
  shows "\<exists>v e. impliedVolatility row = Some (Num v) \<and> 0 < v \<and>
           black_scholes S (strike row) t r v = Inl e \<and> table_loop S t r cs prices = Inl e"
  using assms
proof (induction cs arbitrary: prices)
  case Nil
  then show ?case by simp
next
  case (Cons call rest)
  show ?case
  proof (cases "pricer_raises S t r call")
    case True
    with Cons.prems have row: "row = call" by simp
    from True obtain v where v: "impliedVolatility call = Some (Num v)" "0 < v"
      and err: "isl (black_scholes S (strike call) t r v)"
      by (auto simp: pricer_raises_def split: option.splits fl.splits)
    from err obtain e where e: "black_scholes S (strike call) t r v = Inl e"
      by (cases "black_scholes S (strike call) t r v") simp_all
    have "table_loop S t r (call # rest) prices = Inl e"
      using v e by simp
    with v e row show ?thesis by blast
  next
    case False
    with Cons.prems have later: "find (pricer_raises S t r) rest = Some row" by simp
    note IH = Cons.IH [OF later]
    show ?thesis
    proof (cases "impliedVolatility call")
      case None
      then show ?thesis using IH by simp
    next
      case (Some f)
      show ?thesis
      proof (cases f)
        case NaN
        with Some show ?thesis using IH by simp
      next
        case (Num vol)
        show ?thesis
        proof (cases "vol \<le> 0")
          case True
          with Some Num show ?thesis using IH by simp
        next
          case nonpos: False
          then have vol: "0 < vol" by simp
          have iv: "impliedVolatility call = Some (Num vol)"
            using Some Num by simp
          note bs = pricer_returns_value [OF False iv vol]
          show ?thesis
            using iv vol IH by (simp add: bs)
        qed
      qed
    qed
  qed
qed

lemma vs_market_loop_refines:
  assumes "\<forall>row\<in>set cs. \<not> pricer_raises S t r row"
  shows "vs_market_loop S t r cs prices = Inr (prices @ List.map_filter (spec_comparison_row S t r) cs)"
  using assms
proof (induction cs arbitrary: prices)
  case Nil
  show ?case by simp
next
  case (Cons call rest)
  have rest: "\<forall>row\<in>set rest. \<not> pricer_raises S t r row"
    using Cons.prems by simp
  have here: "\<not> pricer_raises S t r call"
    using Cons.prems by simp
  note IH = Cons.IH [OF rest]
  show ?case
  proof (cases "impliedVolatility call")
    case None
    then show ?thesis
      by (simp add: IH spec_comparison_row_def)
  next
    case (Some f)
    show ?thesis
    proof (cases f)
      case NaN
      with Some show ?thesis
        by (simp add: IH spec_comparison_row_def)
    next
      case (Num vol)
      show ?thesis
      proof (cases "vol \<le> 0")
        case True
        with Some Num show ?thesis
          by (simp add: IH spec_comparison_row_def)
      next
        case False
        then have vol: "0 < vol" by simp
        have iv: "impliedVolatility call = Some (Num vol)"
          using Some Num by simp
        note bs = pricer_returns_value [OF here iv vol]
        show ?thesis
        proof (cases "mid_price call")
          case NaN
          then show ?thesis
            using iv vol by (simp add: bs IH spec_comparison_row_def mid_price_def)
        next
          case (Num m)
          then show ?thesis
            using iv vol by (simp add: bs IH spec_comparison_row_def mid_price_def)
        qed
      qed
    qed
  qed
qed

lemma vs_market_loop_first_raise:
  assumes "find (pricer_raises S t r) cs = Some row"
  shows "\<exists>v e. impliedVolatility row = Some (Num v) \<and> 0 < v \<and>
           black_scholes S (strike row) t r v = Inl e \<and> vs_market_loop S t r cs prices = Inl e"
  using assms
proof (induction cs arbitrary: prices)
  case Nil
  then show ?case by simp
next
  case (Cons call rest)
  show ?case
  proof (cases "pricer_raises S t r call")
    case True
    with Cons.prems have row: "row = call" by simp
    from True obtain v where v: "impliedVolatility call = Some (Num v)" "0 < v"
      and err: "isl (black_scholes S (strike call) t r v)"
      by (auto simp: pricer_raises_def split: option.splits fl.splits)
    from err obtain e where e: "black_scholes S (strike call) t r v = Inl e"
      by (cases "black_scholes S (strike call) t r v") simp_all
    have "vs_market_loop S t r (call # rest) prices = Inl e"
      using v e by simp
    with v e row show ?thesis by blast
  next
    case False
    with Cons.prems have later: "find (pricer_raises S t r) rest = Some row" by simp
    note IH = Cons.IH [OF later]
    show ?thesis
    proof (cases "impliedVolatility call")
      case None
      then show ?thesis using IH by simp
    next
      case (Some f)
      show ?thesis
      proof (cases f)
        case NaN
        with Some show ?thesis using IH by simp
      next
        case (Num vol)
        show ?thesis
        proof (cases "vol \<le> 0")
          case True
          with Some Num show ?thesis using IH by simp
        next
          case nonpos: False
          then have vol: "0 < vol" by simp
          have iv: "impliedVolatility call = Some (Num vol)"
            using Some Num by simp
          note bs = pricer_returns_value [OF False iv vol]
          show ?thesis
            using iv vol IH
            by (cases "mid_price call") (simp_all add: bs mid_price_def)
        qed
      qed
    qed
  qed
qed

lemma spec_price_row_Some_iff: "(\<exists>y. spec_price_row S t r row = Some y) \<longleftrightarrow> valid_vol row"
  by (simp add: spec_price_row_def split: option.splits fl.splits)

lemma length_spec_price_rows:
  "length (List.map_filter (spec_price_row S t r) cs) = length (filter valid_vol cs)"
  by (simp add: List.map_filter_def spec_price_row_Some_iff del: valid_vol.simps)

lemma strikes_spec_price_rows:
  "map p_strike (List.map_filter (spec_price_row S t r) cs) = map strike (filter valid_vol cs)"
  by (induction cs)
     (auto simp: spec_price_row_def split: option.splits fl.splits)

lemma spec_comparison_row_Some_iff:
  "(\<exists>y. spec_comparison_row S t r row = Some y) \<longleftrightarrow> valid_vol row \<and> mid_price row \<noteq> NaN"
  by (simp add: spec_comparison_row_def split: option.splits fl.splits)

lemma length_spec_comparison_rows:
  "length (List.map_filter (spec_comparison_row S t r) cs)
     = length (filter (\<lambda>row. valid_vol row \<and> mid_price row \<noteq> NaN) cs)"
  by (simp add: List.map_filter_def spec_comparison_row_Some_iff del: valid_vol.simps)

lemma difference_spec_comparison_row:
  "spec_comparison_row S t r row = Some x \<Longrightarrow>
     mid_price row = Num (market_price x) \<and> difference x = market_price x - model_price x"
  by (auto simp: spec_comparison_row_def split: option.splits fl.splits if_splits)

lemma set_map_filter: "set (List.map_filter f xs) = {y. \<exists>x\<in>set xs. f x = Some y}"
  by (induction xs) (auto simp: split: option.splits)

section \<open>The clock\<close>

lemma timedelta_days_floor:
  "real_of_int (timedelta_days (strptime_ymd expiry) now) = real_of_int \<lfloor>elapsed_days expiry now\<rfloor>"
proof -
  let ?n = "(expiry - ordinal now) * 86400000000 - int (usec now)"
  have "elapsed_days expiry now = real_of_int ?n / real_of_int 86400000000"
    by (simp add: elapsed_days_def field_simps)
  then have "\<lfloor>elapsed_days expiry now\<rfloor> = ?n div 86400000000"
    by (simp only: floor_divide_of_int_eq)
  then show ?thesis
    by (simp add: timedelta_days_def strptime_ymd_def)
qed

lemma timedelta_days_calendar:
  assumes "usec now < 86400000000"
  shows "timedelta_days (strptime_ymd expiry) now
           = expiry - ordinal now - (if usec now = 0 then 0 else 1)"
proof (cases "usec now = 0")
  case True
  then show ?thesis
    by (simp add: timedelta_days_def strptime_ymd_def)
next
  case False
  let ?d = "expiry - ordinal now"
  have "(?d * 86400000000 - int (usec now)) div 86400000000
          = ((?d - 1) * 86400000000 + (86400000000 - int (usec now))) div 86400000000"
    by (simp add: algebra_simps)
  also have "\<dots> = ?d - 1"
    using False assms by simp
  finally show ?thesis
    using False by (simp add: timedelta_days_def strptime_ymd_def)
qed

lemma t_year: "time_to_expiry 740367 \<lparr>ordinal = 740002, usec = 0\<rparr> = 1"
  by (simp add: time_to_expiry_def timedelta_days_def strptime_ymd_def)

lemma t_zero: "time_to_expiry 740367 \<lparr>ordinal = 740366, usec = 36000000000\<rparr> = 0"
  by (simp add: time_to_expiry_def timedelta_days_def strptime_ymd_def)

lemma t_past: "time_to_expiry 740367 \<lparr>ordinal = 740367, usec = 36000000000\<rparr> = - (1 / 365)"
  by (simp add: time_to_expiry_def timedelta_days_def strptime_ymd_def)

section \<open>Claims about the pricer\<close>

text \<open>
  C4. For every \<open>S > 0\<close>, \<open>K > 0\<close>, \<open>T > 0\<close>, \<open>vol > 0\<close> and every \<open>r\<close>, the pricer
  returns (it raises nothing) and its call price is
  \<open>S * \<Phi>(d1) - K * exp(-r*T) * \<Phi>(d2)\<close> with
  \<open>d1 = (ln(S/K) + (r + 0.5*vol^2)*T) / (vol*sqrt T)\<close> and \<open>d2 = d1 - vol*sqrt T\<close>.
\<close>

theorem black_scholes_call_closed_form:
  assumes "0 < S" "0 < K" "0 < T" "0 < vol"
  shows "\<exists>p. black_scholes S K T r vol =
           Inr (S * norm_cdf ((ln (S / K) + (r + 0.5 * vol ^ 2) * T) / (vol * sqrt T))
                - K * exp (- r * T)
                  * norm_cdf ((ln (S / K) + (r + 0.5 * vol ^ 2) * T) / (vol * sqrt T) - vol * sqrt T),
                p)"
  using black_scholes_valid [OF assms, of r]
  by (simp add: spec_call_def spec_d2_def spec_d1_def)

theorem black_scholes_call_closed_form_witness:
  "(0::real) < 100 \<and> (0::real) < 1 \<and> (0::real) < 2 / 10 \<and>
   (\<exists>p. black_scholes 100 100 1 (5 / 100) (2 / 10) =
      Inr (100 * norm_cdf ((ln (100 / 100) + (5 / 100 + 0.5 * (2 / 10) ^ 2) * 1) / (2 / 10 * sqrt 1))
           - 100 * exp (- (5 / 100) * 1)
             * norm_cdf ((ln (100 / 100) + (5 / 100 + 0.5 * (2 / 10) ^ 2) * 1) / (2 / 10 * sqrt 1)
                         - 2 / 10 * sqrt 1),
           p))"
  using black_scholes_call_closed_form [of 100 100 1 "2 / 10" "5 / 100"]
  by simp

text \<open>
  C1. The claim: for valid inputs the put price is
  \<open>K * exp(-r*T) * \<Phi>(-d2) - S * \<Phi>(-d1)\<close>. Line 21 of the source closes the
  parenthesis after \<open>S\<close> and computes \<open>(K * exp(-r*T) * \<Phi>(-d2) - S) * \<Phi>(-d1)\<close>.
  At \<open>S = 100\<close>, \<open>K = 100\<close>, \<open>T = 1\<close>, \<open>r = 0.05\<close>, \<open>vol = 0.2\<close> (where
  \<open>d1 = 0.35\<close> and \<open>d2 = 0.15\<close>) the put returned is the second expression, and it
  lies at least 20 below the closed form.
\<close>

theorem black_scholes_put_misplaced_parenthesis:
  "\<exists>c p. black_scholes 100 100 1 (1 / 20) (1 / 5) = Inr (c, p) \<and>
     p = (100 * exp (- (1 / 20) * 1) * norm_cdf (- (3 / 20)) - 100) * norm_cdf (- (7 / 20)) \<and>
     p + 20 \<le> 100 * exp (- (1 / 20) * 1) * norm_cdf (- (3 / 20)) - 100 * norm_cdf (- (7 / 20))"
proof -
  have "code_put 100 100 1 (1 / 20) (1 / 5) + 20 \<le> spec_put 100 100 1 (1 / 20) (1 / 5)"
    using std_put_gap by simp
  then show ?thesis
    by (simp add: std_valid code_put_def spec_put_def std_d1 std_d2)
qed

text \<open>
  C2. The claim: \<open>call - put = S - K * exp(-r*T)\<close> within a small tolerance. At the
  reference inputs of C1 the call and put returned miss put-call parity by at least 20.
\<close>

theorem black_scholes_parity_broken:
  "\<exists>c p. black_scholes 100 100 1 (1 / 20) (1 / 5) = Inr (c, p) \<and>
     20 \<le> \<bar>(c - p) - (100 - 100 * exp (- (1 / 20) * 1))\<bar>"
proof -
  let ?c = "spec_call 100 100 1 (1 / 20) (1 / 5)"
  let ?p = "code_put 100 100 1 (1 / 20) (1 / 5)"
  let ?q = "spec_put 100 100 1 (1 / 20) (1 / 5)"
  have "?c - ?q = 100 - 100 * exp (- (1 / 20) * 1)"
    by (rule spec_parity)
  then have "(?c - ?p) - (100 - 100 * exp (- (1 / 20) * 1)) = ?q - ?p"
    by simp
  then have "20 \<le> \<bar>(?c - ?p) - (100 - 100 * exp (- (1 / 20) * 1))\<bar>"
    using std_put_gap by simp
  then show ?thesis
    by (simp add: std_valid)
qed

text \<open>
  C5. The claim: at the money (\<open>S = K\<close>) with \<open>r = 0\<close> the call and the put are
  equal. At \<open>S = K = 100\<close>, \<open>T = 1\<close>, \<open>r = 0\<close>, \<open>vol = 0.2\<close> the call returned is
  not negative and the put returned is at most \<open>-20\<close>.
\<close>

theorem black_scholes_atm_call_differs_from_put:
  "\<exists>c p. black_scholes 100 100 1 0 (1 / 5) = Inr (c, p) \<and> 0 \<le> c \<and> p \<le> - 20 \<and> c \<noteq> p"
  using atm_call_nonneg atm_code_put_neg by (simp add: atm_valid)

text \<open>
  C6. The claim: for valid inputs both prices are finite and not negative. At the
  reference inputs of C1 the put returned is negative, at most \<open>-16\<close>.
\<close>

theorem black_scholes_put_negative:
  "\<exists>c p. black_scholes 100 100 1 (1 / 20) (1 / 5) = Inr (c, p) \<and> p \<le> - 16 \<and> p < 0"
  using std_code_put_neg by (simp add: std_valid)

text \<open>
  C3, as amended. The pricer validates nothing and has no error of its own. It raises
  Python's \<^verbatim>\<open>ZeroDivisionError\<close> when \<open>K = 0\<close>, and when \<open>vol = 0\<close> or \<open>T = 0\<close>
  after the logarithm and the square root have passed; it raises Python's
  \<^verbatim>\<open>ValueError\<close> when \<open>K \<noteq> 0\<close> and \<open>S / K \<le> 0\<close>, and when \<open>T < 0\<close> after the
  logarithm has passed; on every other input, a negative \<open>vol\<close> and a negative \<open>S\<close>
  with a negative \<open>K\<close> included, it raises nothing and returns a pair of real prices.
\<close>

theorem black_scholes_error_cases:
  "black_scholes S K T r vol =
     (if K = 0 then Inl ZeroDivisionError
      else if S / K \<le> 0 then Inl ValueError
      else if T < 0 then Inl ValueError
      else if vol = 0 \<or> T = 0 then Inl ZeroDivisionError
      else Inr (S * norm_cdf (spec_d1 S K T r vol)
                  - K * exp (- r * T) * norm_cdf (spec_d2 S K T r vol),
                (K * exp (- r * T) * norm_cdf (- spec_d2 S K T r vol) - S)
                  * norm_cdf (- spec_d1 S K T r vol)))"
  by (simp add: black_scholes_def bind_err_def py_truediv_def math_log_def math_sqrt_def
                Let_def spec_d2_def spec_d1_def)

text \<open>
  The claim C3 as stated (every input with \<open>vol \<le> 0\<close> is rejected) fails at
  \<open>vol = -0.2\<close> with \<open>S = K = 100\<close>, \<open>T = 1\<close>, \<open>r = 0.05\<close>: the pricer returns.
\<close>

theorem black_scholes_negative_vol_accepted:
  "(- (1 / 5) :: real) \<le> 0 \<and> (\<exists>c p. black_scholes 100 100 1 (1 / 20) (- (1 / 5)) = Inr (c, p))"
  by (simp add: black_scholes_def bind_err_def py_truediv_def math_log_def math_sqrt_def Let_def)

section \<open>Claims about the reporters\<close>

text \<open>
  C7, as amended. When the pricer returns on every row with a valid implied volatility,
  as it does whenever the spot price and the time to expiry are positive and every such
  row has a positive strike, the model-table reporter raises nothing and produces
  exactly one entry per row whose implied volatility is present, positive and not NaN,
  in the order of the chain; every other row is skipped. When the pricer raises on some
  valid row, the reporter raises the exception of the first such row and produces no
  entry.
\<close>

theorem black_scholes_table_rows:
  "(0 < last_price mkt \<and> 0 < time_to_expiry expiry now \<and>
      (\<forall>row\<in>set (calls mkt). valid_vol row \<longrightarrow> 0 < strike row)
    \<longrightarrow> (\<forall>row\<in>set (calls mkt).
           \<not> pricer_raises (last_price mkt) (time_to_expiry expiry now) r row)) \<and>
   ((\<forall>row\<in>set (calls mkt). \<not> pricer_raises (last_price mkt) (time_to_expiry expiry now) r row)
    \<longrightarrow> (\<exists>rows. black_scholes_table mkt expiry now r = Inr rows \<and>
           rows = List.map_filter (spec_price_row (last_price mkt) (time_to_expiry expiry now) r)
                    (calls mkt) \<and>
           length rows = length (filter valid_vol (calls mkt)) \<and>
           map p_strike rows = map strike (filter valid_vol (calls mkt)))) \<and>
   ((\<exists>row\<in>set (calls mkt). pricer_raises (last_price mkt) (time_to_expiry expiry now) r row)
    \<longrightarrow> (\<exists>row v e.
           find (pricer_raises (last_price mkt) (time_to_expiry expiry now) r) (calls mkt) = Some row \<and>
           impliedVolatility row = Some (Num v) \<and>
           black_scholes (last_price mkt) (strike row) (time_to_expiry expiry now) r v = Inl e \<and>
           black_scholes_table mkt expiry now r = Inl e))"
proof (intro conjI impI)
  let ?S = "last_price mkt" and ?t = "time_to_expiry expiry now"
  show "\<forall>row\<in>set (calls mkt). \<not> pricer_raises ?S ?t r row"
    if "0 < ?S \<and> 0 < ?t \<and> (\<forall>row\<in>set (calls mkt). valid_vol row \<longrightarrow> 0 < strike row)"
    using that valid_inputs_never_raise [of ?S ?t _ r] by blast
  show "\<exists>rows. black_scholes_table mkt expiry now r = Inr rows \<and>
           rows = List.map_filter (spec_price_row ?S ?t r) (calls mkt) \<and>
           length rows = length (filter valid_vol (calls mkt)) \<and>
           map p_strike rows = map strike (filter valid_vol (calls mkt))"
    if "\<forall>row\<in>set (calls mkt). \<not> pricer_raises ?S ?t r row"
    unfolding black_scholes_table_def table_loop_refines [OF that]
    by (simp add: length_spec_price_rows strikes_spec_price_rows del: valid_vol.simps)
  show "\<exists>row v e. find (pricer_raises ?S ?t r) (calls mkt) = Some row \<and>
           impliedVolatility row = Some (Num v) \<and>
           black_scholes ?S (strike row) ?t r v = Inl e \<and>
           black_scholes_table mkt expiry now r = Inl e"
    if "\<exists>row\<in>set (calls mkt). pricer_raises ?S ?t r row"
  proof -
    from find_first_exists [OF that] obtain row
      where row: "find (pricer_raises ?S ?t r) (calls mkt) = Some row" ..
    from table_loop_first_raise [OF row, of "[]"] row show ?thesis
      unfolding black_scholes_table_def by blast
  qed
qed

text \<open>
  A chain of three rows whose second row has a NaN implied volatility gives two
  entries, those of rows 1 and 3 in that order. On the day of the expiry the time to
  expiry is negative, and a chain whose second row is valid gives \<^verbatim>\<open>ValueError\<close>.
\<close>

theorem black_scholes_table_rows_witness:
  "(\<exists>rows. black_scholes_table
       \<lparr>last_price = 100,
        calls = [\<lparr>strike = 90, impliedVolatility = Some (Num (1 / 5)), bid = Num 12, ask = Num 13\<rparr>,
                 \<lparr>strike = 100, impliedVolatility = Some NaN, bid = Num 6, ask = Num 7\<rparr>,
                 \<lparr>strike = 110, impliedVolatility = Some (Num (3 / 10)), bid = Num 2, ask = Num 3\<rparr>]\<rparr>
       740367 \<lparr>ordinal = 740002, usec = 0\<rparr> (9 / 200) = Inr rows \<and>
     length rows = 2 \<and> map p_strike rows = [90, 110] \<and> map p_vol rows = [1 / 5, 3 / 10]) \<and>
   black_scholes_table
       \<lparr>last_price = 100,
        calls = [\<lparr>strike = 90, impliedVolatility = None, bid = Num 12, ask = Num 13\<rparr>,
                 \<lparr>strike = 110, impliedVolatility = Some (Num (3 / 10)), bid = Num 2, ask = Num 3\<rparr>]\<rparr>
       740367 \<lparr>ordinal = 740367, usec = 36000000000\<rparr> (9 / 200) = Inl ValueError"
proof
  let ?mkt = "\<lparr>last_price = 100,
        calls = [\<lparr>strike = 90, impliedVolatility = Some (Num (1 / 5)), bid = Num 12, ask = Num 13\<rparr>,
                 \<lparr>strike = 100, impliedVolatility = Some NaN, bid = Num 6, ask = Num 7\<rparr>,
                 \<lparr>strike = 110, impliedVolatility = Some (Num (3 / 10)), bid = Num 2, ask = Num 3\<rparr>]\<rparr>"
  let ?now = "\<lparr>ordinal = 740002, usec = 0\<rparr>"
  note h = black_scholes_table_rows [of ?mkt 740367 ?now "9 / 200"]
  have pre: "0 < last_price ?mkt \<and> 0 < time_to_expiry 740367 ?now \<and>
             (\<forall>row\<in>set (calls ?mkt). valid_vol row \<longrightarrow> 0 < strike row)"
    by (simp add: t_year)
  from h pre have "\<forall>row\<in>set (calls ?mkt).
      \<not> pricer_raises (last_price ?mkt) (time_to_expiry 740367 ?now) (9 / 200) row"
    by blast
  with h have "\<exists>rows. black_scholes_table ?mkt 740367 ?now (9 / 200) = Inr rows \<and>
           rows = List.map_filter (spec_price_row (last_price ?mkt) (time_to_expiry 740367 ?now) (9 / 200))
                    (calls ?mkt) \<and>
           length rows = length (filter valid_vol (calls ?mkt)) \<and>
           map p_strike rows = map strike (filter valid_vol (calls ?mkt))"
    by blast
  then show "\<exists>rows. black_scholes_table ?mkt 740367 ?now (9 / 200) = Inr rows \<and>
     length rows = 2 \<and> map p_strike rows = [90, 110] \<and> map p_vol rows = [1 / 5, 3 / 10]"
    by (auto simp: spec_price_row_def)
next
  let ?bad = "\<lparr>strike = 110, impliedVolatility = Some (Num (3 / 10)), bid = Num 2, ask = Num 3\<rparr>"
  let ?mkt = "\<lparr>last_price = 100,
        calls = [\<lparr>strike = 90, impliedVolatility = None, bid = Num 12, ask = Num 13\<rparr>, ?bad]\<rparr>"
  let ?now = "\<lparr>ordinal = 740367, usec = 36000000000\<rparr>"
  note h = black_scholes_table_rows [of ?mkt 740367 ?now "9 / 200"]
  have err: "black_scholes 100 110 (- (1 / 365)) (9 / 200) v = Inl ValueError" for v
    by (rule black_scholes_negative_time) simp_all
  have "pricer_raises (last_price ?mkt) (time_to_expiry 740367 ?now) (9 / 200) ?bad"
    by (simp add: pricer_raises_def t_past err)
  then have "\<exists>row\<in>set (calls ?mkt).
      pricer_raises (last_price ?mkt) (time_to_expiry 740367 ?now) (9 / 200) row"
    by simp
  with h obtain row v e where
    "impliedVolatility row = Some (Num v)"
    "find (pricer_raises (last_price ?mkt) (time_to_expiry 740367 ?now) (9 / 200)) (calls ?mkt) = Some row"
    "black_scholes (last_price ?mkt) (strike row) (time_to_expiry 740367 ?now) (9 / 200) v = Inl e"
    "black_scholes_table ?mkt 740367 ?now (9 / 200) = Inl e"
    by blast
  then show "black_scholes_table ?mkt 740367 ?now (9 / 200) = Inl ValueError"
    by (auto simp: pricer_raises_def t_past err split: if_splits)
qed

text \<open>
  The claim C7 as stated (for every option chain) fails when the pricer raises on a
  valid row: with the expiry on the next day the time to expiry is \<open>0\<close>, and a chain
  of one valid row gives \<^verbatim>\<open>ZeroDivisionError\<close> and no entry.
\<close>

theorem black_scholes_table_raises_at_zero_time:
  "valid_vol \<lparr>strike = 100, impliedVolatility = Some (Num (1 / 5)), bid = Num 4, ask = Num 5\<rparr> \<and>
   black_scholes_table
     \<lparr>last_price = 100,
      calls = [\<lparr>strike = 100, impliedVolatility = Some (Num (1 / 5)), bid = Num 4, ask = Num 5\<rparr>]\<rparr>
     740367 \<lparr>ordinal = 740366, usec = 36000000000\<rparr> (9 / 200) = Inl ZeroDivisionError"
  by (simp add: black_scholes_table_def t_zero black_scholes_zero_time)

text \<open>
  C8, as amended. When the pricer returns on every row of the chain with a valid
  implied volatility, as it does whenever the spot price and the time to expiry are
  positive and every such row has a positive strike, the model-vs-market reporter
  raises nothing, takes \<open>(bid + ask) / 2\<close> as the market price of each valid row, skips
  the row when this mid-price is NaN, and otherwise appends one entry for it, in the
  order of the chain, whose difference is the market price minus the model price. The
  pricer runs before the mid-price is computed: when it raises on some valid row, the
  reporter raises the exception of the first such row and produces no entry.
\<close>

theorem blkschl_vs_market_rows:
  "(0 < last_price mkt \<and> 0 < time_to_expiry expiry now \<and>
      (\<forall>row\<in>set (calls mkt). valid_vol row \<longrightarrow> 0 < strike row)
    \<longrightarrow> (\<forall>row\<in>set (calls mkt).
           \<not> pricer_raises (last_price mkt) (time_to_expiry expiry now) r row)) \<and>
   ((\<forall>row\<in>set (calls mkt). \<not> pricer_raises (last_price mkt) (time_to_expiry expiry now) r row)
    \<longrightarrow> (\<exists>rows. blkschl_vs_market mkt expiry now r = Inr rows \<and>
           rows = List.map_filter
                    (spec_comparison_row (last_price mkt) (time_to_expiry expiry now) r) (calls mkt) \<and>
           length rows
             = length (filter (\<lambda>row. valid_vol row \<and> mid_price row \<noteq> NaN) (calls mkt)) \<and>
           (\<forall>x\<in>set rows. difference x = market_price x - model_price x))) \<and>
   ((\<exists>row\<in>set (calls mkt). pricer_raises (last_price mkt) (time_to_expiry expiry now) r row)
    \<longrightarrow> (\<exists>row v e.
           find (pricer_raises (last_price mkt) (time_to_expiry expiry now) r) (calls mkt) = Some row \<and>
           impliedVolatility row = Some (Num v) \<and>
           black_scholes (last_price mkt) (strike row) (time_to_expiry expiry now) r v = Inl e \<and>
           blkschl_vs_market mkt expiry now r = Inl e))"
proof (intro conjI impI)
  let ?S = "last_price mkt" and ?t = "time_to_expiry expiry now"
  let ?f = "spec_comparison_row ?S ?t r"
  show "\<forall>row\<in>set (calls mkt). \<not> pricer_raises ?S ?t r row"
    if "0 < ?S \<and> 0 < ?t \<and> (\<forall>row\<in>set (calls mkt). valid_vol row \<longrightarrow> 0 < strike row)"
    using that valid_inputs_never_raise [of ?S ?t _ r] by blast
  show "\<exists>rows. blkschl_vs_market mkt expiry now r = Inr rows \<and>
           rows = List.map_filter ?f (calls mkt) \<and>
           length rows
             = length (filter (\<lambda>row. valid_vol row \<and> mid_price row \<noteq> NaN) (calls mkt)) \<and>
           (\<forall>x\<in>set rows. difference x = market_price x - model_price x)"
    if "\<forall>row\<in>set (calls mkt). \<not> pricer_raises ?S ?t r row"
  proof -
    have "\<forall>x\<in>set (List.map_filter ?f (calls mkt)). difference x = market_price x - model_price x"
      using difference_spec_comparison_row by (auto simp: set_map_filter)
    then show ?thesis
      unfolding blkschl_vs_market_def vs_market_loop_refines [OF that]
      by (simp add: length_spec_comparison_rows del: valid_vol.simps)
  qed
  show "\<exists>row v e. find (pricer_raises ?S ?t r) (calls mkt) = Some row \<and>
           impliedVolatility row = Some (Num v) \<and>
           black_scholes ?S (strike row) ?t r v = Inl e \<and>
           blkschl_vs_market mkt expiry now r = Inl e"
    if "\<exists>row\<in>set (calls mkt). pricer_raises ?S ?t r row"
  proof -
    from find_first_exists [OF that] obtain row
      where row: "find (pricer_raises ?S ?t r) (calls mkt) = Some row" ..
    from vs_market_loop_first_raise [OF row, of "[]"] row show ?thesis
      unfolding blkschl_vs_market_def by blast
  qed
qed

text \<open>
  A row with \<open>bid = NaN\<close> and \<open>ask = 5\<close> is skipped and the row after it gives an
  entry. With the expiry on the next day the time to expiry is \<open>0\<close>, and a chain whose
  second row is valid, with \<open>bid = NaN\<close>, gives \<^verbatim>\<open>ZeroDivisionError\<close>.
\<close>

theorem blkschl_vs_market_rows_witness:
  "(\<exists>rows. blkschl_vs_market
       \<lparr>last_price = 100,
        calls = [\<lparr>strike = 90, impliedVolatility = Some (Num (1 / 5)), bid = NaN, ask = Num 5\<rparr>,
                 \<lparr>strike = 110, impliedVolatility = Some (Num (3 / 10)), bid = Num 2, ask = Num 3\<rparr>]\<rparr>
       740367 \<lparr>ordinal = 740002, usec = 0\<rparr> (9 / 200) = Inr rows \<and>
     length rows = 1 \<and> map c_strike rows = [110] \<and> map market_price rows = [5 / 2] \<and>
     map difference rows = [5 / 2 - spec_call 100 110 1 (9 / 200) (3 / 10)]) \<and>
   blkschl_vs_market
       \<lparr>last_price = 100,
        calls = [\<lparr>strike = 90, impliedVolatility = Some (Num (- (1 / 10))), bid = Num 1, ask = Num 2\<rparr>,
                 \<lparr>strike = 110, impliedVolatility = Some (Num (3 / 10)), bid = NaN, ask = Num 5\<rparr>]\<rparr>
       740367 \<lparr>ordinal = 740366, usec = 36000000000\<rparr> (9 / 200) = Inl ZeroDivisionError"
proof
  let ?mkt = "\<lparr>last_price = 100,
        calls = [\<lparr>strike = 90, impliedVolatility = Some (Num (1 / 5)), bid = NaN, ask = Num 5\<rparr>,
                 \<lparr>strike = 110, impliedVolatility = Some (Num (3 / 10)), bid = Num 2, ask = Num 3\<rparr>]\<rparr>"
  let ?now = "\<lparr>ordinal = 740002, usec = 0\<rparr>"
  note h = blkschl_vs_market_rows [of ?mkt 740367 ?now "9 / 200"]
  have pre: "0 < last_price ?mkt \<and> 0 < time_to_expiry 740367 ?now \<and>
             (\<forall>row\<in>set (calls ?mkt). valid_vol row \<longrightarrow> 0 < strike row)"
    by (simp add: t_year)
  from h pre have "\<forall>row\<in>set (calls ?mkt).
      \<not> pricer_raises (last_price ?mkt) (time_to_expiry 740367 ?now) (9 / 200) row"
    by blast
  with h have "\<exists>rows. blkschl_vs_market ?mkt 740367 ?now (9 / 200) = Inr rows \<and>
           rows = List.map_filter
                    (spec_comparison_row (last_price ?mkt) (time_to_expiry 740367 ?now) (9 / 200))
                    (calls ?mkt)"
    by blast
  then show "\<exists>rows. blkschl_vs_market ?mkt 740367 ?now (9 / 200) = Inr rows \<and>
     length rows = 1 \<and> map c_strike rows = [110] \<and> map market_price rows = [5 / 2] \<and>
     map difference rows = [5 / 2 - spec_call 100 110 1 (9 / 200) (3 / 10)]"
    by (auto simp: spec_comparison_row_def mid_price_def t_year)
next
  let ?bad = "\<lparr>strike = 110, impliedVolatility = Some (Num (3 / 10)), bid = NaN, ask = Num 5\<rparr>"
  let ?mkt = "\<lparr>last_price = 100,
        calls = [\<lparr>strike = 90, impliedVolatility = Some (Num (- (1 / 10))), bid = Num 1, ask = Num 2\<rparr>,
                 ?bad]\<rparr>"
  let ?now = "\<lparr>ordinal = 740366, usec = 36000000000\<rparr>"
  note h = blkschl_vs_market_rows [of ?mkt 740367 ?now "9 / 200"]
  have err: "black_scholes 100 110 0 (9 / 200) v = Inl ZeroDivisionError" for v
    by (rule black_scholes_zero_time) simp_all
  have "pricer_raises (last_price ?mkt) (time_to_expiry 740367 ?now) (9 / 200) ?bad"
    by (simp add: pricer_raises_def t_zero err)
  then have "\<exists>row\<in>set (calls ?mkt).
      pricer_raises (last_price ?mkt) (time_to_expiry 740367 ?now) (9 / 200) row"
    by simp
  with h obtain row v e where
    "impliedVolatility row = Some (Num v)"
    "find (pricer_raises (last_price ?mkt) (time_to_expiry 740367 ?now) (9 / 200)) (calls ?mkt) = Some row"
    "black_scholes (last_price ?mkt) (strike row) (time_to_expiry 740367 ?now) (9 / 200) v = Inl e"
    "blkschl_vs_market ?mkt 740367 ?now (9 / 200) = Inl e"
    by blast
  then show "blkschl_vs_market ?mkt 740367 ?now (9 / 200) = Inl ZeroDivisionError"
    by (auto simp: pricer_raises_def t_zero err split: if_splits)
qed

text \<open>
  The claim C8 as stated (a valid row with a NaN mid-price is skipped) fails when the
  pricer raises on the row, since the pricer runs first: on the day of the expiry the
  time to expiry is negative, and a valid row with \<open>bid = NaN\<close> and \<open>ask = 5\<close> gives
  \<^verbatim>\<open>ValueError\<close> instead of being skipped.
\<close>

theorem blkschl_vs_market_raises_before_mid:
  "mid_price \<lparr>strike = 100, impliedVolatility = Some (Num (1 / 5)), bid = NaN, ask = Num 5\<rparr> = NaN \<and>
   blkschl_vs_market
     \<lparr>last_price = 100,
      calls = [\<lparr>strike = 100, impliedVolatility = Some (Num (1 / 5)), bid = NaN, ask = Num 5\<rparr>]\<rparr>
     740367 \<lparr>ordinal = 740367, usec = 36000000000\<rparr> (9 / 200) = Inl ValueError"
  by (simp add: blkschl_vs_market_def t_past black_scholes_negative_time mid_price_def)

text \<open>
  C10, as amended. When the pricer returns on every row of the chain with a valid
  implied volatility, as it does whenever the spot price and the time to expiry are
  positive and every such row has a positive strike, every valid row whose mid-price is
  not NaN gives an entry with market price \<open>(bid + ask) / 2\<close>, whatever the signs and
  the order of \<open>bid\<close> and \<open>ask\<close>: neither is validated. When the pricer raises on some
  valid row of the chain, the reporter raises the exception of the first such row and
  produces no entry.
\<close>

theorem blkschl_vs_market_emits_unvalidated_quotes:
  "(0 < last_price mkt \<and> 0 < time_to_expiry expiry now \<and>
      (\<forall>row\<in>set (calls mkt). valid_vol row \<longrightarrow> 0 < strike row)
    \<longrightarrow> (\<forall>row\<in>set (calls mkt).
           \<not> pricer_raises (last_price mkt) (time_to_expiry expiry now) r row)) \<and>
   ((\<forall>row\<in>set (calls mkt). \<not> pricer_raises (last_price mkt) (time_to_expiry expiry now) r row)
    \<longrightarrow> (\<forall>row\<in>set (calls mkt). \<forall>v.
           impliedVolatility row = Some (Num v) \<and> 0 < v \<and> mid_price row \<noteq> NaN
           \<longrightarrow> (\<exists>rows b a. blkschl_vs_market mkt expiry now r = Inr rows \<and>
                  bid row = Num b \<and> ask row = Num a \<and>
                  \<lparr>c_strike = strike row,
                   model_price = spec_call (last_price mkt) (strike row) (time_to_expiry expiry now) r v,
                   market_price = (b + a) / 2,
                   difference = (b + a) / 2
                     - spec_call (last_price mkt) (strike row) (time_to_expiry expiry now) r v,
                   c_vol = v\<rparr> \<in> set rows))) \<and>
   ((\<exists>row\<in>set (calls mkt). pricer_raises (last_price mkt) (time_to_expiry expiry now) r row)
    \<longrightarrow> (\<exists>row v e.
           find (pricer_raises (last_price mkt) (time_to_expiry expiry now) r) (calls mkt) = Some row \<and>
           impliedVolatility row = Some (Num v) \<and>
           black_scholes (last_price mkt) (strike row) (time_to_expiry expiry now) r v = Inl e \<and>
           blkschl_vs_market mkt expiry now r = Inl e))"
proof (intro conjI impI ballI allI)
  let ?S = "last_price mkt" and ?t = "time_to_expiry expiry now"
  show "\<not> pricer_raises ?S ?t r row"
    if "0 < ?S \<and> 0 < ?t \<and> (\<forall>row\<in>set (calls mkt). valid_vol row \<longrightarrow> 0 < strike row)"
      and "row \<in> set (calls mkt)" for row
    using that valid_inputs_never_raise [of ?S ?t row r] by blast
  show "\<exists>rows b a. blkschl_vs_market mkt expiry now r = Inr rows \<and>
           bid row = Num b \<and> ask row = Num a \<and>
           \<lparr>c_strike = strike row, model_price = spec_call ?S (strike row) ?t r v,
            market_price = (b + a) / 2,
            difference = (b + a) / 2 - spec_call ?S (strike row) ?t r v,
            c_vol = v\<rparr> \<in> set rows"
    if ok: "\<forall>row\<in>set (calls mkt). \<not> pricer_raises ?S ?t r row"
      and row: "row \<in> set (calls mkt)"
      and v: "impliedVolatility row = Some (Num v) \<and> 0 < v \<and> mid_price row \<noteq> NaN" for row v
  proof -
    obtain b a where ba: "bid row = Num b" "ask row = Num a"
      using v by (cases "bid row"; cases "ask row") (simp_all add: mid_price_def)
    let ?x = "\<lparr>c_strike = strike row, model_price = spec_call ?S (strike row) ?t r v,
               market_price = (b + a) / 2,
               difference = (b + a) / 2 - spec_call ?S (strike row) ?t r v, c_vol = v\<rparr>"
    have "spec_comparison_row ?S ?t r row = Some ?x"
      using v ba by (simp add: spec_comparison_row_def mid_price_def)
    then have "?x \<in> set (List.map_filter (spec_comparison_row ?S ?t r) (calls mkt))"
      using row by (auto simp: set_map_filter)
    then show ?thesis
      unfolding blkschl_vs_market_def vs_market_loop_refines [OF ok]
      using ba by blast
  qed
  show "\<exists>row v e. find (pricer_raises ?S ?t r) (calls mkt) = Some row \<and>
           impliedVolatility row = Some (Num v) \<and>
           black_scholes ?S (strike row) ?t r v = Inl e \<and>
           blkschl_vs_market mkt expiry now r = Inl e"
    if "\<exists>row\<in>set (calls mkt). pricer_raises ?S ?t r row"
  proof -
    from find_first_exists [OF that] obtain row
      where row: "find (pricer_raises ?S ?t r) (calls mkt) = Some row" ..
    from vs_market_loop_first_raise [OF row, of "[]"] row show ?thesis
      unfolding blkschl_vs_market_def by blast
  qed
qed

text \<open>
  A row with \<open>bid = 3\<close> and \<open>ask = -5\<close> gives an entry with market price \<open>-1\<close>; on the
  day of the expiry the same row gives \<^verbatim>\<open>ValueError\<close>.
\<close>

theorem blkschl_vs_market_emits_unvalidated_quotes_witness:
  "(\<exists>rows. blkschl_vs_market
       \<lparr>last_price = 100,
        calls = [\<lparr>strike = 110, impliedVolatility = Some (Num (3 / 10)), bid = Num 3, ask = Num (- 5)\<rparr>]\<rparr>
       740367 \<lparr>ordinal = 740002, usec = 0\<rparr> (9 / 200) = Inr rows \<and>
     \<lparr>c_strike = 110, model_price = spec_call 100 110 1 (9 / 200) (3 / 10),
      market_price = - 1, difference = - 1 - spec_call 100 110 1 (9 / 200) (3 / 10),
      c_vol = 3 / 10\<rparr> \<in> set rows) \<and>
   blkschl_vs_market
       \<lparr>last_price = 100,
        calls = [\<lparr>strike = 110, impliedVolatility = Some (Num (3 / 10)), bid = Num 3, ask = Num (- 5)\<rparr>]\<rparr>
       740367 \<lparr>ordinal = 740367, usec = 36000000000\<rparr> (9 / 200) = Inl ValueError"
proof
  let ?row = "\<lparr>strike = 110, impliedVolatility = Some (Num (3 / 10)), bid = Num 3, ask = Num (- 5)\<rparr>"
  let ?mkt = "\<lparr>last_price = 100, calls = [?row]\<rparr>"
  let ?now = "\<lparr>ordinal = 740002, usec = 0\<rparr>"
  note h = blkschl_vs_market_emits_unvalidated_quotes [of ?mkt 740367 ?now "9 / 200"]
  have pre: "0 < last_price ?mkt \<and> 0 < time_to_expiry 740367 ?now \<and>
             (\<forall>row\<in>set (calls ?mkt). valid_vol row \<longrightarrow> 0 < strike row)"
    by (simp add: t_year)
  from h pre have ok: "\<forall>row\<in>set (calls ?mkt).
      \<not> pricer_raises (last_price ?mkt) (time_to_expiry 740367 ?now) (9 / 200) row"
    by blast
  have d: "?row \<in> set (calls ?mkt)" by simp
  have e: "impliedVolatility ?row = Some (Num (3 / 10)) \<and> (0::real) < 3 / 10 \<and> mid_price ?row \<noteq> NaN"
    by (simp add: mid_price_def)
  from h ok d e have "\<exists>rows b a. blkschl_vs_market ?mkt 740367 ?now (9 / 200) = Inr rows \<and>
      bid ?row = Num b \<and> ask ?row = Num a \<and>
      \<lparr>c_strike = strike ?row,
       model_price = spec_call (last_price ?mkt) (strike ?row) (time_to_expiry 740367 ?now) (9 / 200) (3 / 10),
       market_price = (b + a) / 2,
       difference = (b + a) / 2
         - spec_call (last_price ?mkt) (strike ?row) (time_to_expiry 740367 ?now) (9 / 200) (3 / 10),
       c_vol = 3 / 10\<rparr> \<in> set rows"
    by blast
  then show "\<exists>rows. blkschl_vs_market ?mkt 740367 ?now (9 / 200) = Inr rows \<and>
     \<lparr>c_strike = 110, model_price = spec_call 100 110 1 (9 / 200) (3 / 10),
      market_price = - 1, difference = - 1 - spec_call 100 110 1 (9 / 200) (3 / 10),
      c_vol = 3 / 10\<rparr> \<in> set rows"
    by (auto simp: t_year)
next
  let ?row = "\<lparr>strike = 110, impliedVolatility = Some (Num (3 / 10)), bid = Num 3, ask = Num (- 5)\<rparr>"
  let ?mkt = "\<lparr>last_price = 100, calls = [?row]\<rparr>"
  let ?now = "\<lparr>ordinal = 740367, usec = 36000000000\<rparr>"
  note h = blkschl_vs_market_emits_unvalidated_quotes [of ?mkt 740367 ?now "9 / 200"]
  have err: "black_scholes 100 110 (- (1 / 365)) (9 / 200) v = Inl ValueError" for v
    by (rule black_scholes_negative_time) simp_all
  have "pricer_raises (last_price ?mkt) (time_to_expiry 740367 ?now) (9 / 200) ?row"
    by (simp add: pricer_raises_def t_past err)
  then have "\<exists>row\<in>set (calls ?mkt).
      pricer_raises (last_price ?mkt) (time_to_expiry 740367 ?now) (9 / 200) row"
    by simp
  with h obtain row v e where
    "impliedVolatility row = Some (Num v)"
    "find (pricer_raises (last_price ?mkt) (time_to_expiry 740367 ?now) (9 / 200)) (calls ?mkt) = Some row"
    "black_scholes (last_price ?mkt) (strike row) (time_to_expiry 740367 ?now) (9 / 200) v = Inl e"
    "blkschl_vs_market ?mkt 740367 ?now (9 / 200) = Inl e"
    by blast
  then show "blkschl_vs_market ?mkt 740367 ?now (9 / 200) = Inl ValueError"
    by (auto simp: pricer_raises_def t_past err split: if_splits)
qed

text \<open>
  The claim C10 as stated (an entry whenever the mid-price is not NaN) fails when the
  pricer raises on the row: with the expiry on the next day the time to expiry is \<open>0\<close>,
  and a valid row with \<open>bid = 4\<close> and \<open>ask = 5\<close> gives \<^verbatim>\<open>ZeroDivisionError\<close> and no
  entry.
\<close>

theorem blkschl_vs_market_raises_at_zero_time:
  "valid_vol \<lparr>strike = 100, impliedVolatility = Some (Num (1 / 5)), bid = Num 4, ask = Num 5\<rparr> \<and>
   mid_price \<lparr>strike = 100, impliedVolatility = Some (Num (1 / 5)), bid = Num 4, ask = Num 5\<rparr> = Num (9 / 2) \<and>
   blkschl_vs_market
     \<lparr>last_price = 100,
      calls = [\<lparr>strike = 100, impliedVolatility = Some (Num (1 / 5)), bid = Num 4, ask = Num 5\<rparr>]\<rparr>
     740367 \<lparr>ordinal = 740366, usec = 36000000000\<rparr> (9 / 200) = Inl ZeroDivisionError"
  by (simp add: blkschl_vs_market_def t_zero black_scholes_zero_time mid_price_def)



text \<open>
  C9, as amended. Both reporters pass to the pricer the floor of the time between the
  current instant and midnight of the expiry date, in days, divided by 365. The floor
  rounds toward minus infinity: it is the difference of the two calendar dates when
  the current time is exactly midnight and one day less otherwise.
\<close>

theorem time_to_expiry_floor:
  assumes "usec now < 86400000000"
  shows "time_to_expiry expiry now = real_of_int \<lfloor>elapsed_days expiry now\<rfloor> / 365 \<and>
         time_to_expiry expiry now
           = real_of_int (expiry - ordinal now - (if usec now = 0 then 0 else 1)) / 365 \<and>
         black_scholes_table mkt expiry now r
           = table_loop (last_price mkt) (real_of_int \<lfloor>elapsed_days expiry now\<rfloor> / 365) r (calls mkt) [] \<and>
         blkschl_vs_market mkt expiry now r
           = vs_market_loop (last_price mkt) (real_of_int \<lfloor>elapsed_days expiry now\<rfloor> / 365) r (calls mkt) []"
proof -
  have fl: "time_to_expiry expiry now = real_of_int \<lfloor>elapsed_days expiry now\<rfloor> / 365"
    by (simp only: time_to_expiry_def timedelta_days_floor)
  have cal: "time_to_expiry expiry now
               = real_of_int (expiry - ordinal now - (if usec now = 0 then 0 else 1)) / 365"
    by (simp only: time_to_expiry_def timedelta_days_calendar [OF assms])
  have tab: "black_scholes_table mkt expiry now r
               = table_loop (last_price mkt) (real_of_int \<lfloor>elapsed_days expiry now\<rfloor> / 365) r (calls mkt) []"
    by (simp only: black_scholes_table_def fl)
  have cmp: "blkschl_vs_market mkt expiry now r
               = vs_market_loop (last_price mkt) (real_of_int \<lfloor>elapsed_days expiry now\<rfloor> / 365) r (calls mkt) []"
    by (simp only: blkschl_vs_market_def fl)
  from fl cal tab cmp show ?thesis by blast
qed

theorem time_to_expiry_floor_witness:
  "(36000000000::nat) < 86400000000 \<and>
   time_to_expiry 740367 \<lparr>ordinal = 740002, usec = 36000000000\<rparr> = 364 / 365 \<and>
   real_of_int \<lfloor>elapsed_days 740367 \<lparr>ordinal = 740002, usec = 36000000000\<rparr>\<rfloor> = 364"
proof -
  have u: "usec \<lparr>ordinal = 740002, usec = 36000000000\<rparr> < 86400000000"
    by simp
  note h = time_to_expiry_floor [OF u, of 740367 "\<lparr>last_price = 100, calls = []\<rparr>" 0]
  from h have c: "time_to_expiry 740367 \<lparr>ordinal = 740002, usec = 36000000000\<rparr> = 364 / 365"
    by simp
  from h have "time_to_expiry 740367 \<lparr>ordinal = 740002, usec = 36000000000\<rparr>
                 = real_of_int \<lfloor>elapsed_days 740367 \<lparr>ordinal = 740002, usec = 36000000000\<rparr>\<rfloor> / 365"
    by blast
  with c have "real_of_int \<lfloor>elapsed_days 740367 \<lparr>ordinal = 740002, usec = 36000000000\<rparr>\<rfloor> = 364"
    by simp
  with c show ?thesis by simp
qed

text \<open>
  The claim C9 as stated (whole days between the two dates, partial days truncated)
  fails ten hours after midnight of the expiry date: the program computes \<open>-1 / 365\<close>,
  while the truncated elapsed time and the difference of the calendar dates are both
  \<open>0\<close>.
\<close>

theorem time_to_expiry_not_truncation:
  "time_to_expiry 740367 \<lparr>ordinal = 740367, usec = 36000000000\<rparr> = - (1 / 365) \<and>
   real_of_int (whole_days_truncated 740367 \<lparr>ordinal = 740367, usec = 36000000000\<rparr>) / 365 = 0 \<and>
   real_of_int (740367 - ordinal \<lparr>ordinal = 740367, usec = 36000000000\<rparr>) / 365 = 0"
  by (simp add: time_to_expiry_def timedelta_days_def strptime_ymd_def
                whole_days_truncated_def elapsed_days_def)

end
